theory Spec2Isabelle
  imports Main "HOL-Library.Char_ord" "HOL-Library.List_Lexorder"
begin

section \<open>Data model\<close>

text \<open>
  A value of Go's \<^verbatim>\<open>interface{}\<close> as produced by decoding a JSON document. Go's
  \<^verbatim>\<open>nil\<close> interface value, which the driver binds as SQL NULL, is \<open>JNull\<close>.
\<close>

datatype json =
    JNull
  | JBool bool
  | JNum int
  | JStr string
  | JArr "json list"
  | JObj "(string \<times> json) list"

text \<open>
  \<^verbatim>\<open>map[string]interface{}\<close>: a record of the batch. The association list is read
  with \<open>map_of\<close>; its key set is \<open>set (map fst obj)\<close>, so \<open>map_of obj c = None\<close> is Go's
  \<^verbatim>\<open>_, ok := obj[c]\<close> with \<^verbatim>\<open>ok == false\<close>.
\<close>

type_synonym object = "(string \<times> json) list"

text \<open>
  Go errors. \<open>errorString\<close> is what \<^verbatim>\<open>errors.New\<close> builds in this package;
  \<open>ParseError\<close> stands for the errors of the \<^verbatim>\<open>data\<close> package and \<open>StoreError\<close> for those
  of the database handle.
\<close>

datatype error = errorString string | ParseError string | StoreError string

definition ConfigError :: error where
  "ConfigError = errorString ''primaryKeys required if preservedFields specified''"

definition MissingKeyError :: "string \<Rightarrow> error" where
  "MissingKeyError col = errorString (''Missing value for primary key: '' @ col)"

section \<open>Statement compiler: \<^verbatim>\<open>buildSQLiteInsertSQL\<close>\<close>

text \<open>\<^verbatim>\<open>strings.Join(elems, sep)\<close> of the Go standard library.\<close>

fun Join :: "string list \<Rightarrow> string \<Rightarrow> string" where
  "Join [] sep = []"
| "Join [x] sep = x"
| "Join (x # y # ys) sep = x @ sep @ Join (y # ys) sep"

text \<open>
  Modelled from the spec: \<^verbatim>\<open>sortedColumns\<close> is called by \<^verbatim>\<open>buildSQLiteInsertSQL\<close> but
  its body is not among the sources. The spec (Column Set Resolver) says: take the union
  of all keys appearing in any record of the batch and sort it lexicographically by byte
  value.
\<close>

definition sortedColumns :: "object list \<Rightarrow> string list" where
  "sortedColumns objects = sort (remdups (concat (map (map fst) objects)))"

text \<open>
  A Go \<^verbatim>\<open>map[string]bool\<close> read with \<^verbatim>\<open>m[k]\<close> (false when the key is absent) is a total
  function; \<^verbatim>\<open>for _, c := range xs { m[c] = true }\<close> is \<open>mark_all\<close>.
\<close>

definition mark_all :: "string list \<Rightarrow> (string \<Rightarrow> bool)" where
  "mark_all xs = fold (\<lambda>c m. m(c := True)) xs (\<lambda>_. False)"

text \<open>
  Lines 110-127: the column list. \<open>colMap\<close> is filled from the sorted keys only and is
  not updated when a preserved field is appended.
\<close>

definition append_preserved :: "(string \<Rightarrow> bool) \<Rightarrow> string list \<Rightarrow> string list \<Rightarrow> string list" where
  "append_preserved colMap preservedFields cols =
     fold (\<lambda>pf cols. if \<not> colMap pf then cols @ [pf] else cols) preservedFields cols"

definition columns :: "object list \<Rightarrow> string list \<Rightarrow> string list" where
  "columns objects preservedFields =
     (let cols = sortedColumns objects;
          colMap = mark_all cols
      in sort (append_preserved colMap preservedFields cols))"

text \<open>Lines 136-146: the head of the statement.\<close>

definition insert_head :: "string \<Rightarrow> bool \<Rightarrow> string list \<Rightarrow> string" where
  "insert_head tableName onDupKeyUpdate cols =
     (if onDupKeyUpdate
      then ''INSERT OR REPLACE INTO '' @ tableName @ ''('' @ Join cols '','' @ '') VALUES''
      else ''INSERT INTO '' @ tableName @ ''('' @ Join cols '','' @ '') VALUES'')"

text \<open>
  Lines 164-170: the inner loop over \<open>primaryKeys\<close>, with \<open>k\<close> the loop index and the pair
  \<open>(qs, valCols)\<close> the two variables it appends to.
\<close>

fun pk_loop :: "string list \<Rightarrow> nat \<Rightarrow> string \<times> string list \<Rightarrow> string \<times> string list" where
  "pk_loop [] k (qs, valCols) = (qs, valCols)"
| "pk_loop (pk # pks) k (qs, valCols) =
     (let qs1 = (if k > 0 then qs @ ''AND '' else qs)
      in pk_loop pks (Suc k) (qs1 @ pk @ '' = ?'', valCols @ [pk]))"

text \<open>Lines 155-178: the loop over the columns that builds one row group.\<close>

fun col_loop :: "string \<Rightarrow> bool \<Rightarrow> string list \<Rightarrow> (string \<Rightarrow> bool) \<Rightarrow> string list \<Rightarrow> nat
    \<Rightarrow> string \<times> string list \<Rightarrow> string \<times> string list" where
  "col_loop tableName onDupKeyUpdate primaryKeys preservedFieldMap [] i (qs, valCols) = (qs, valCols)"
| "col_loop tableName onDupKeyUpdate primaryKeys preservedFieldMap (c # cs) i (qs, valCols) =
     (let qs1 = (if i > 0 then qs @ '','' else qs)
      in if onDupKeyUpdate \<and> preservedFieldMap c
         then (let (qs2, valCols2) =
                     pk_loop primaryKeys 0 (qs1 @ ''(SELECT '' @ c @ '' FROM '' @ tableName @ '' WHERE '', valCols)
               in col_loop tableName onDupKeyUpdate primaryKeys preservedFieldMap cs (Suc i)
                    (qs2 @ '')'', valCols2))
         else col_loop tableName onDupKeyUpdate primaryKeys preservedFieldMap cs (Suc i)
                (qs1 @ ''?'', valCols @ [c]))"

text \<open>Lines 151-179: the row group \<open>qs\<close> and the columns \<open>valCols\<close> its placeholders read.\<close>

definition row_group :: "string \<Rightarrow> bool \<Rightarrow> string list \<Rightarrow> string list \<Rightarrow> string list
    \<Rightarrow> string \<times> string list" where
  "row_group tableName onDupKeyUpdate primaryKeys preservedFields cols =
     (let (qs, valCols) =
            col_loop tableName onDupKeyUpdate primaryKeys (mark_all preservedFields) cols 0 (''('', [])
      in (qs @ '')'', valCols))"

text \<open>Lines 181-186: one row group per object, comma separated.\<close>

fun rows_loop :: "string \<Rightarrow> nat \<Rightarrow> nat \<Rightarrow> string \<Rightarrow> string" where
  "rows_loop qs 0 i insertSQL = insertSQL"
| "rows_loop qs (Suc n) i insertSQL =
     rows_loop qs n (Suc i) ((if i > 0 then insertSQL @ '','' else insertSQL) @ qs)"

text \<open>
  Lines 189-202: the argument list. A column absent from the object binds \<open>nil\<close>, unless
  it is a primary key: then the function returns at once with the error.
\<close>

fun vals_cols :: "(string \<Rightarrow> bool) \<Rightarrow> object \<Rightarrow> string list \<Rightarrow> json list \<Rightarrow> error + json list" where
  "vals_cols primaryKeyMap obj [] vals = Inr vals"
| "vals_cols primaryKeyMap obj (col # rest) vals =
     (case map_of obj col of
        Some val \<Rightarrow> vals_cols primaryKeyMap obj rest (vals @ [val])
      | None \<Rightarrow>
          if primaryKeyMap col then Inl (MissingKeyError col)
          else vals_cols primaryKeyMap obj rest (vals @ [JNull]))"

fun vals_loop :: "(string \<Rightarrow> bool) \<Rightarrow> string list \<Rightarrow> object list \<Rightarrow> json list \<Rightarrow> error + json list" where
  "vals_loop primaryKeyMap valCols [] vals = Inr vals"
| "vals_loop primaryKeyMap valCols (obj # objs) vals =
     (case vals_cols primaryKeyMap obj valCols vals of
        Inl err \<Rightarrow> Inl err
      | Inr vals1 \<Rightarrow> vals_loop primaryKeyMap valCols objs vals1)"

text \<open>
  The whole function. Go returns the triple \<^verbatim>\<open>(insertSQL, vals, err)\<close>; its only caller
  reads the first two components only when \<^verbatim>\<open>err == nil\<close>, so the result is a sum.
\<close>

definition buildSQLiteInsertSQL :: "object list \<Rightarrow> string \<Rightarrow> bool \<Rightarrow> string list \<Rightarrow> string list
    \<Rightarrow> error + string \<times> json list" where
  "buildSQLiteInsertSQL objects tableName onDupKeyUpdate primaryKeys preservedFields =
     (let cols = columns objects preservedFields;
          primaryKeyMap = mark_all primaryKeys;
          insertSQL = insert_head tableName onDupKeyUpdate cols;
          (qs, valCols) = row_group tableName onDupKeyUpdate primaryKeys preservedFields cols;
          insertSQL1 = rows_loop qs (length objects) 0 insertSQL
      in case vals_loop primaryKeyMap valCols objects [] of
           Inl err \<Rightarrow> Inl err
         | Inr vals \<Rightarrow> Inr (insertSQL1, vals))"

section \<open>Batch executor: \<^verbatim>\<open>sqliteInsertObjects\<close> and \<^verbatim>\<open>SQLiteInsertData\<close>\<close>

text \<open>
  The database handle is an external collaborator. Every call the code makes on it is
  recorded, in order, in a trace; the handle itself is a function that answers a call
  from the trace up to and including that call (\<open>None\<close> is Go's \<^verbatim>\<open>nil\<close> error). The
  logger is fire-and-forget and is left out.
\<close>

datatype event =
    Begin
  | Prepare string
  | Exec string "json list"
  | LastInsertId
  | RowsAffected
  | Close
  | Commit
  | Rollback

type_synonym store = "event list \<Rightarrow> error option"

text \<open>A call whose error result the code reads.\<close>

definition call :: "store \<Rightarrow> event \<Rightarrow> event list \<Rightarrow> error option \<times> event list" where
  "call db ev tr = (db (tr @ [ev]), tr @ [ev])"

text \<open>
  Lines 64-104. \<^verbatim>\<open>defer stmt.Close()\<close> is registered once \<^verbatim>\<open>Preparex\<close> has succeeded, so
  every later return closes the statement; the result of \<^verbatim>\<open>Close\<close> is dropped.
\<close>

definition sqliteInsertObjects :: "store \<Rightarrow> object list \<Rightarrow> string \<Rightarrow> bool \<Rightarrow> string list
    \<Rightarrow> string list \<Rightarrow> event list \<Rightarrow> error option \<times> event list" where
  "sqliteInsertObjects tx objects tableName onDupKeyUpdate primaryKeys preservedFields tr =
     (case buildSQLiteInsertSQL objects tableName onDupKeyUpdate primaryKeys preservedFields of
        Inl err \<Rightarrow> (Some err, tr)
      | Inr (insertSQL, vals) \<Rightarrow>
          (case call tx (Prepare insertSQL) tr of
             (Some err, tr1) \<Rightarrow> (Some err, tr1)
           | (None, tr1) \<Rightarrow>
               (case call tx (Exec insertSQL vals) tr1 of
                  (Some err, tr2) \<Rightarrow> (Some err, tr2 @ [Close])
                | (None, tr2) \<Rightarrow>
                    (case call tx LastInsertId tr2 of
                       (Some err, tr3) \<Rightarrow> (Some err, tr3 @ [Close])
                     | (None, tr3) \<Rightarrow>
                         (case call tx RowsAffected tr3 of
                            (Some err, tr4) \<Rightarrow> (Some err, tr4 @ [Close])
                          | (None, tr4) \<Rightarrow> (None, tr4 @ [Close]))))))"

text \<open>
  Lines 43-54: the loop over the chunks, entered only when \<^verbatim>\<open>batchSize > 0\<close> (the guard
  \<open>0 < batchSize\<close> below repeats that of line 42). \<^verbatim>\<open>objects[i:maxIndex]\<close> is
  \<open>take (maxIndex - i) (drop i objects)\<close>. On an error the transaction is rolled back
  (the result of \<^verbatim>\<open>Rollback\<close> is dropped) and the error is returned. Indices are
  natural numbers: \<open>i + batchSize\<close> is computed only for \<open>i\<close> below the length of a slice.
\<close>

function chunk_loop :: "store \<Rightarrow> object list \<Rightarrow> string \<Rightarrow> bool \<Rightarrow> string list \<Rightarrow> string list
    \<Rightarrow> nat \<Rightarrow> nat \<Rightarrow> event list \<Rightarrow> error option \<times> event list" where
  "chunk_loop tx objects tableName onDupKeyUpdate primaryKeys preservedFields batchSize i tr =
     (if 0 < batchSize \<and> i < length objects
      then (let maxIndex = (if i + batchSize > length objects then length objects else i + batchSize)
            in case sqliteInsertObjects tx (take (maxIndex - i) (drop i objects)) tableName
                      onDupKeyUpdate primaryKeys preservedFields tr of
                 (Some err, tr1) \<Rightarrow> (Some err, tr1 @ [Rollback])
               | (None, tr1) \<Rightarrow>
                   chunk_loop tx objects tableName onDupKeyUpdate primaryKeys preservedFields
                     batchSize (i + batchSize) tr1)
      else (None, tr))"
  by pat_completeness auto
termination
  by (relation "measure (\<lambda>(tx, objects, tableName, onDupKeyUpdate, primaryKeys, preservedFields,
        batchSize, i, tr). length objects - i)") auto

declare chunk_loop.simps [simp del]

text \<open>
  What a call can do: return an error value (\<open>None\<close> for \<^verbatim>\<open>nil\<close>), or panic, as
  \<^verbatim>\<open>MustBegin\<close> does when the transaction cannot be begun.
\<close>

datatype outcome = Returned "error option" | Panicked error

text \<open>
  Lines 26-62. \<open>ObjectsFromJSON\<close> is \<^verbatim>\<open>data.ObjectsFromJSON\<close>, a function of another
  package, taken as a parameter. The results of \<^verbatim>\<open>Commit\<close> are dropped.
\<close>

definition SQLiteInsertData :: "('j \<Rightarrow> error + object list) \<Rightarrow> store \<Rightarrow> 'j \<Rightarrow> string \<Rightarrow> bool
    \<Rightarrow> string list \<Rightarrow> string list \<Rightarrow> int \<Rightarrow> event list \<Rightarrow> outcome \<times> event list" where
  "SQLiteInsertData ObjectsFromJSON db d tableName onDupKeyUpdate primaryKeys preservedFields batchSize tr =
     (if length preservedFields > 0 \<and> length primaryKeys = 0
      then (Returned (Some ConfigError), tr)
      else case ObjectsFromJSON d of
             Inl err \<Rightarrow> (Returned (Some err), tr)
           | Inr objects \<Rightarrow>
               (case call db Begin tr of
                  (Some err, tr1) \<Rightarrow> (Panicked err, tr1)
                | (None, tr1) \<Rightarrow>
                    if batchSize > 0
                    then (case chunk_loop db objects tableName onDupKeyUpdate primaryKeys
                                 preservedFields (nat batchSize) 0 tr1 of
                            (Some err, tr2) \<Rightarrow> (Returned (Some err), tr2)
                          | (None, tr2) \<Rightarrow> (Returned None, tr2 @ [Commit]))
                    else (case sqliteInsertObjects db objects tableName onDupKeyUpdate
                                 primaryKeys preservedFields (tr1 @ [Commit]) of
                            (err, tr2) \<Rightarrow> (Returned err, tr2))))"

section \<open>Pipeline writer stage: \<^verbatim>\<open>SQLiteWriter\<close>\<close>

text \<open>
  Modelled from the spec: the struct \<^verbatim>\<open>SQLWriterData\<close> is declared in a file that is not
  among the sources. The spec describes it as a routed envelope carrying an explicit
  target-table name plus a nested payload. A payload that is absent decodes to
  \<^verbatim>\<open>nil\<close>, that is \<open>JNull\<close>.
\<close>

record SQLWriterData =
  wd_TableName :: string
  wd_InsertData :: json

text \<open>
  The functions of the \<^verbatim>\<open>data\<close> package that the stage calls, taken as parameters;
  \<open>'j\<close> is \<^verbatim>\<open>data.JSON\<close>. \<open>ParseJSON\<close> is \<^verbatim>\<open>data.ParseJSON(d, &wd)\<close> for a
  \<^verbatim>\<open>wd\<close> of type \<^verbatim>\<open>SQLWriterData\<close>; \<open>NewJSON\<close> returns Go's pair of a value and an
  error.
\<close>

record 'j data_pkg =
  ParseJSON :: "'j \<Rightarrow> error + SQLWriterData"
  NewJSON :: "json \<Rightarrow> 'j \<times> error option"
  ObjectsFromJSON :: "'j \<Rightarrow> error + object list"

record SQLiteWriter =
  writeDB :: store
  TableName :: string
  OnDupKeyUpdate :: bool
  PrimaryKeys :: "string list"
  PreservedFields :: "string list"
  ConcurrencyLevel :: int
  BatchSize :: int

definition NewSQLiteWriter :: "store \<Rightarrow> string \<Rightarrow> SQLiteWriter" where
  "NewSQLiteWriter db tableName =
     \<lparr>writeDB = db, TableName = tableName, OnDupKeyUpdate = True, PrimaryKeys = [],
      PreservedFields = [], ConcurrencyLevel = 0, BatchSize = 100\<rparr>"

text \<open>
  What a stage can touch: the messages sent so far on the output channel and on the kill
  channel, and the trace of the shared database handle.
\<close>

record 'j world =
  outputChan :: "'j list"
  killChan :: "error list"
  dbTrace :: "event list"

text \<open>
  Modelled from the spec: \<^verbatim>\<open>util.KillPipelineIfErr\<close> is defined in a file that is not
  among the sources. The spec says that a failure pushes one error onto the shared
  cancellation signal; a \<^verbatim>\<open>nil\<close> error pushes nothing. The call returns, so the caller
  goes on.
\<close>

definition KillPipelineIfErr :: "error option \<Rightarrow> error list \<Rightarrow> error list" where
  "KillPipelineIfErr err kc = (case err of None \<Rightarrow> kc | Some e \<Rightarrow> kc @ [e])"

text \<open>
  Lines 258-259 and 262-263: \<^verbatim>\<open>err = util.SQLiteInsertData(...)\<close> followed by
  \<^verbatim>\<open>util.KillPipelineIfErr(err, killChan)\<close>. Both are the last statements of their branch, so
  a panic of the first is caught by the deferred \<^verbatim>\<open>recover\<close> of lines 244-248, which
  sends the panic's error to the kill channel.
\<close>

definition insert_and_report :: "'j data_pkg \<Rightarrow> SQLiteWriter \<Rightarrow> 'j \<Rightarrow> string \<Rightarrow> 'j world \<Rightarrow> 'j world" where
  "insert_and_report dp s d tableName w =
     (case SQLiteInsertData (ObjectsFromJSON dp) (writeDB s) d tableName (OnDupKeyUpdate s)
             (PrimaryKeys s) (PreservedFields s) (BatchSize s) (dbTrace w) of
        (Returned err, tr) \<Rightarrow> w\<lparr>killChan := KillPipelineIfErr err (killChan w), dbTrace := tr\<rparr>
      | (Panicked e, tr) \<Rightarrow> w\<lparr>killChan := KillPipelineIfErr (Some e) (killChan w), dbTrace := tr\<rparr>)"

text \<open>\<^verbatim>\<open>SQLiteWriter.ProcessData\<close>, lines 242-266.\<close>

definition ProcessData :: "'j data_pkg \<Rightarrow> SQLiteWriter \<Rightarrow> 'j \<Rightarrow> 'j world \<Rightarrow> 'j world" where
  "ProcessData dp s d w =
     (case ParseJSON dp d of
        Inr wd \<Rightarrow>
          if wd_TableName wd \<noteq> [] \<and> wd_InsertData wd \<noteq> JNull
          then (let (dd, err) = NewJSON dp (wd_InsertData wd);
                    w1 = w\<lparr>killChan := KillPipelineIfErr err (killChan w)\<rparr>
                in insert_and_report dp s dd (wd_TableName wd) w1)
          else insert_and_report dp s d (TableName s) w
      | Inl err \<Rightarrow> insert_and_report dp s d (TableName s) w)"

text \<open>
  \<^verbatim>\<open>SQLReaderSQLiteWriter.ProcessData\<close>: \<open>forEach\<close> is the function literal of lines 40-43,
  and \<open>ForEachQueryData\<close> is the method of the embedded \<^verbatim>\<open>SQLReader\<close>, of another file,
  taken as a parameter.
\<close>

definition forEach :: "'j data_pkg \<Rightarrow> SQLiteWriter \<Rightarrow> 'j \<Rightarrow> 'j world \<Rightarrow> 'j world" where
  "forEach dp s d w = (let w1 = ProcessData dp s d w in w1\<lparr>outputChan := outputChan w1 @ [d]\<rparr>)"

definition ReaderWriter_ProcessData ::
  "('j \<Rightarrow> ('j \<Rightarrow> 'j world \<Rightarrow> 'j world) \<Rightarrow> 'j world \<Rightarrow> 'j world) \<Rightarrow> 'j data_pkg \<Rightarrow> SQLiteWriter
     \<Rightarrow> 'j \<Rightarrow> 'j world \<Rightarrow> 'j world" where
  "ReaderWriter_ProcessData ForEachQueryData dp s d w = ForEachQueryData d (forEach dp s) w"

subsection \<open>An instance of the \<^verbatim>\<open>data\<close> package on decoded documents\<close>

text \<open>
  Modelled from the spec: \<^verbatim>\<open>data.ObjectsFromJSON\<close> is not among the sources. The spec
  (Record Normalizer) says: the payload is either a single structured object or an array
  of structured objects, and the normalizer fails with a parse error when the payload is
  not an object and not an array of objects. A \<^verbatim>\<open>data.JSON\<close> is represented by the
  document it holds.
\<close>

fun as_object :: "json \<Rightarrow> object option" where
  "as_object (JObj kvs) = Some kvs"
| "as_object _ = None"

definition doc_ObjectsFromJSON :: "json \<Rightarrow> error + object list" where
  "doc_ObjectsFromJSON d =
     (case d of
        JObj kvs \<Rightarrow> Inr [kvs]
      | JArr xs \<Rightarrow>
          if list_all (\<lambda>x. as_object x \<noteq> None) xs then Inr (map (\<lambda>x. the (as_object x)) xs)
          else Inl (ParseError ''not an array of objects'')
      | _ \<Rightarrow> Inl (ParseError ''not an object''))"

text \<open>
  Modelled from the spec: \<^verbatim>\<open>data.ParseJSON\<close> into a \<^verbatim>\<open>SQLWriterData\<close> is not among the
  sources. The spec gives the routed envelope as \<^verbatim>\<open>{ table: string, payload: object|array }\<close>.
  An object decodes into the struct field by field, a field that is absent keeping its
  zero value; anything else is a parse error.
\<close>

definition doc_ParseJSON :: "json \<Rightarrow> error + SQLWriterData" where
  "doc_ParseJSON d =
     (case d of
        JObj kvs \<Rightarrow>
          (case map_of kvs ''table'' of
             None \<Rightarrow> Inr \<lparr>wd_TableName = [], wd_InsertData = (case map_of kvs ''payload'' of None \<Rightarrow> JNull | Some v \<Rightarrow> v)\<rparr>
           | Some (JStr t) \<Rightarrow> Inr \<lparr>wd_TableName = t, wd_InsertData = (case map_of kvs ''payload'' of None \<Rightarrow> JNull | Some v \<Rightarrow> v)\<rparr>
           | Some _ \<Rightarrow> Inl (ParseError ''table is not a string''))
      | _ \<Rightarrow> Inl (ParseError ''not an envelope''))"

text \<open>
  Modelled from the spec: \<^verbatim>\<open>data.NewJSON\<close> is not among the sources; it turns the nested
  payload back into a \<^verbatim>\<open>data.JSON\<close>, which on a decoded document cannot fail.
\<close>

definition doc_NewJSON :: "json \<Rightarrow> json \<times> error option" where
  "doc_NewJSON v = (v, None)"

definition doc_data :: "json data_pkg" where
  "doc_data = \<lparr>ParseJSON = doc_ParseJSON, NewJSON = doc_NewJSON, ObjectsFromJSON = doc_ObjectsFromJSON\<rparr>"

text \<open>A database handle on which every call succeeds.\<close>

definition ok_store :: store where
  "ok_store tr = None"

text \<open>A database handle on which the call \<open>ev\<close> fails and every other call succeeds.\<close>

definition failing_at :: "event \<Rightarrow> store" where
  "failing_at ev tr = (if tr \<noteq> [] \<and> last tr = ev then Some (StoreError ''failed'') else None)"

section \<open>Notions used to state the properties\<close>

text \<open>
  The argument a plain placeholder of column \<open>c\<close> binds for the record \<open>obj\<close>: the record's
  value, or NULL when the record has none.
\<close>

definition arg_of :: "object \<Rightarrow> string \<Rightarrow> json" where
  "arg_of obj c = (case map_of obj c of Some v \<Rightarrow> v | None \<Rightarrow> JNull)"

text \<open>
  The correlated subquery of a preserved column, following the format strings of lines
  163-171: one \<open>pk = ?\<close> for each primary key, each but the first preceded by \<open>AND \<close>.
\<close>

definition where_text :: "string list \<Rightarrow> string" where
  "where_text primaryKeys = Join (map (\<lambda>pk. pk @ '' = ?'') primaryKeys) ''AND ''"

definition correlated_select :: "string \<Rightarrow> string list \<Rightarrow> string \<Rightarrow> string" where
  "correlated_select tableName primaryKeys c =
     ''(SELECT '' @ c @ '' FROM '' @ tableName @ '' WHERE '' @ where_text primaryKeys @ '')''"

text \<open>
  The placeholder of a column in the row group, the columns whose values its parameters
  bind, and the text of the row group.
\<close>

definition placeholder :: "string \<Rightarrow> bool \<Rightarrow> string list \<Rightarrow> string list \<Rightarrow> string \<Rightarrow> string" where
  "placeholder tableName onDupKeyUpdate primaryKeys preservedFields c =
     (if onDupKeyUpdate \<and> c \<in> set preservedFields
      then correlated_select tableName primaryKeys c else ''?'')"

definition bound_cols :: "bool \<Rightarrow> string list \<Rightarrow> string list \<Rightarrow> string \<Rightarrow> string list" where
  "bound_cols onDupKeyUpdate primaryKeys preservedFields c =
     (if onDupKeyUpdate \<and> c \<in> set preservedFields then primaryKeys else [c])"

definition row_text :: "string \<Rightarrow> bool \<Rightarrow> string list \<Rightarrow> string list \<Rightarrow> string list \<Rightarrow> string" where
  "row_text tableName onDupKeyUpdate primaryKeys preservedFields cols =
     ''('' @ Join (map (placeholder tableName onDupKeyUpdate primaryKeys preservedFields) cols) '','' @ '')''"

text \<open>The calls that send a statement to the store, and the calls of a chunk that succeeds.\<close>

fun is_statement :: "event \<Rightarrow> bool" where
  "is_statement (Prepare insertSQL) = True"
| "is_statement (Exec insertSQL vals) = True"
| "is_statement _ = False"

definition chunk_events :: "string \<Rightarrow> json list \<Rightarrow> event list" where
  "chunk_events insertSQL vals = [Prepare insertSQL, Exec insertSQL vals, LastInsertId, RowsAffected, Close]"

section \<open>The column list\<close>

lemma fold_mark: "fold (\<lambda>c m. m(c := True)) xs m0 c \<longleftrightarrow> c \<in> set xs \<or> m0 c"
  by (induction xs arbitrary: m0) auto

lemma mark_all_iff: "mark_all xs c \<longleftrightarrow> c \<in> set xs"
  by (simp add: mark_all_def fold_mark)

lemma sortedColumns_eq:
  "sortedColumns objects = sorted_list_of_set (\<Union>obj\<in>set objects. fst ` set obj)"
proof -
  have "(\<Union>obj\<in>set objects. fst ` set obj) = set (concat (map (map fst) objects))"
    by auto
  then show ?thesis
    by (simp only: sortedColumns_def sorted_list_of_set_sort_remdups)
qed

lemma set_sortedColumns: "set (sortedColumns objects) = (\<Union>obj\<in>set objects. fst ` set obj)"
  by (simp add: sortedColumns_def)

lemma append_preserved_eq:
  "append_preserved colMap pfs cols = cols @ filter (\<lambda>pf. \<not> colMap pf) pfs"
  unfolding append_preserved_def
  by (induction pfs arbitrary: cols) auto

lemma columns_eq:
  "columns objects pfs =
     sort (sortedColumns objects @ filter (\<lambda>pf. pf \<notin> set (sortedColumns objects)) pfs)"
  by (simp add: columns_def Let_def append_preserved_eq mark_all_iff)

lemma set_columns: "set (columns objects pfs) = (\<Union>obj\<in>set objects. fst ` set obj) \<union> set pfs"
  by (auto simp add: columns_eq set_sortedColumns)

lemma sorted_columns: "sorted (columns objects pfs)"
  by (simp add: columns_eq)

text \<open>
  Claim C6 says that every name occurs once in the column list, also when
  \<open>preservedFields\<close> holds a name twice. A preserved field that no record has is appended
  once for each of its occurrences, since \<open>colMap\<close> is not updated by the append: for the
  batch \<open>[{a:1}]\<close> and the preserved fields \<open>[x, x]\<close> the column list is \<open>[a, x, x]\<close>.
\<close>

theorem columns_repeats_duplicated_preserved_field:
  "columns [[(''a'', JNum 1)]] [''x'', ''x''] = [''a'', ''x'', ''x'']"
  by code_simp

text \<open>
  When no preserved field is listed twice, the column list is the sorted sequence of the
  distinct names of the union, and it depends on the set of records only.
\<close>

lemma columns_distinct_preserved:
  assumes "distinct pfs"
  shows "columns objects pfs = sorted_list_of_set ((\<Union>obj\<in>set objects. fst ` set obj) \<union> set pfs)"
proof -
  let ?xs = "sortedColumns objects @ filter (\<lambda>pf. pf \<notin> set (sortedColumns objects)) pfs"
  have d: "distinct ?xs"
    using assms by (auto simp add: sortedColumns_def)
  have "sort ?xs = sort (remdups ?xs)"
    using d by (simp only: distinct_remdups_id)
  also have "\<dots> = sorted_list_of_set (set ?xs)"
    by (simp only: sorted_list_of_set_sort_remdups)
  also have "set ?xs = (\<Union>obj\<in>set objects. fst ` set obj) \<union> set pfs"
    by (auto simp add: set_sortedColumns)
  finally show ?thesis
    by (simp only: columns_eq)
qed

lemma columns_record_order:
  assumes "set objects = set objects'"
  shows "columns objects pfs = columns objects' pfs"
  using assms by (simp add: columns_eq sortedColumns_eq)

section \<open>The row group, the statement text and the argument list\<close>

lemma Join_Cons: "Join (x # xs) sep = x @ (if xs = [] then [] else sep @ Join xs sep)"
  by (cases xs) auto

lemma pk_loop_eq:
  "pk_loop pks k (qs, vc) =
     (qs @ (if 0 < k \<and> pks \<noteq> [] then ''AND '' else []) @ where_text pks, vc @ pks)"
proof (induction pks arbitrary: k qs vc)
  case Nil
  then show ?case by (simp add: where_text_def)
next
  case (Cons pk pks)
  show ?case
    by (simp add: Cons.IH where_text_def Join_Cons Let_def)
qed

lemma col_loop_eq:
  "col_loop t odku pks pfm cs i (qs, vc) =
     (qs @ (if 0 < i \<and> cs \<noteq> [] then '','' else []) @
        Join (map (\<lambda>c. if odku \<and> pfm c then correlated_select t pks c else ''?'') cs) '','',
      vc @ concat (map (\<lambda>c. if odku \<and> pfm c then pks else [c]) cs))"
proof (induction cs arbitrary: i qs vc)
  case Nil
  then show ?case by simp
next
  case (Cons c cs)
  show ?case
    using Cons.IH
    by (cases odku) (simp_all add: pk_loop_eq Join_Cons Let_def correlated_select_def)
qed

lemma row_group_eq:
  "row_group t odku pks pfs cols =
     (row_text t odku pks pfs cols, concat (map (bound_cols odku pks pfs) cols))"
proof -
  have ph: "(\<lambda>c. if odku \<and> mark_all pfs c then correlated_select t pks c else ''?'')
            = placeholder t odku pks pfs"
    by (rule ext) (simp add: placeholder_def mark_all_iff)
  have bc: "(\<lambda>c. if odku \<and> mark_all pfs c then pks else [c]) = bound_cols odku pks pfs"
    by (rule ext) (simp add: bound_cols_def mark_all_iff)
  show ?thesis
    by (simp only: row_group_def col_loop_eq ph bc row_text_def) simp
qed

lemma rows_loop_eq:
  "rows_loop qs n i sql = sql @ (if 0 < i \<and> 0 < n then '','' else []) @ Join (replicate n qs) '',''"
proof (induction n arbitrary: i sql)
  case 0
  then show ?case by simp
next
  case (Suc n)
  show ?case
    by (simp add: Suc.IH Join_Cons)
qed

lemma vals_cols_Inr:
  "vals_cols pkm obj cols vals = Inr v \<longleftrightarrow>
     v = vals @ map (arg_of obj) cols \<and> (\<forall>c\<in>set cols. map_of obj c = None \<longrightarrow> \<not> pkm c)"
  by (induction cols arbitrary: vals) (auto simp add: arg_of_def split: option.splits)

lemma vals_cols_Inl:
  "vals_cols pkm obj cols vals = Inl e \<Longrightarrow>
     \<exists>c\<in>set cols. e = MissingKeyError c \<and> pkm c \<and> map_of obj c = None"
  by (induction cols arbitrary: vals) (auto split: option.splits if_splits)

lemma vals_loop_Inr:
  "vals_loop pkm valCols objects vals = Inr v \<longleftrightarrow>
     v = vals @ concat (map (\<lambda>obj. map (arg_of obj) valCols) objects) \<and>
     (\<forall>obj\<in>set objects. \<forall>c\<in>set valCols. map_of obj c = None \<longrightarrow> \<not> pkm c)"
proof (induction objects arbitrary: vals)
  case Nil
  then show ?case by auto
next
  case (Cons obj objects)
  show ?case
  proof (cases "vals_cols pkm obj valCols vals")
    case (Inl e)
    then have "\<not> (\<forall>c\<in>set valCols. map_of obj c = None \<longrightarrow> \<not> pkm c)"
      using vals_cols_Inl by fastforce
    with Inl show ?thesis by auto
  next
    case (Inr v1)
    then have v1: "v1 = vals @ map (arg_of obj) valCols"
      and ok: "\<forall>c\<in>set valCols. map_of obj c = None \<longrightarrow> \<not> pkm c"
      by (simp_all add: vals_cols_Inr)
    show ?thesis
      using Inr ok by (simp add: Cons.IH v1)
  qed
qed

lemma vals_loop_Inl:
  "vals_loop pkm valCols objects vals = Inl e \<Longrightarrow>
     \<exists>obj\<in>set objects. \<exists>c\<in>set valCols. e = MissingKeyError c \<and> pkm c \<and> map_of obj c = None"
proof (induction objects arbitrary: vals)
  case Nil
  then show ?case by simp
next
  case (Cons obj objects)
  then show ?case
    by (cases "vals_cols pkm obj valCols vals") (auto dest: vals_cols_Inl)
qed

lemma build_eq:
  "buildSQLiteInsertSQL objects t odku pks pfs =
     (case vals_loop (mark_all pks) (concat (map (bound_cols odku pks pfs) (columns objects pfs))) objects [] of
        Inl err \<Rightarrow> Inl err
      | Inr vals \<Rightarrow>
          Inr (insert_head t odku (columns objects pfs) @
               Join (replicate (length objects) (row_text t odku pks pfs (columns objects pfs))) '','',
               vals))"
  by (simp add: buildSQLiteInsertSQL_def Let_def row_group_eq rows_loop_eq)

lemma build_missing_key:
  assumes "obj \<in> set objects" and "c \<in> set primaryKeys"
    and "c \<in> set (snd (row_group t odku primaryKeys pfs (columns objects pfs)))"
    and "map_of obj c = None"
  shows "\<exists>c'. buildSQLiteInsertSQL objects t odku primaryKeys pfs = Inl (MissingKeyError c') \<and>
           c' \<in> set primaryKeys \<and> (\<exists>obj'\<in>set objects. map_of obj' c' = None)"
proof -
  let ?vc = "concat (map (bound_cols odku primaryKeys pfs) (columns objects pfs))"
  have c: "c \<in> set ?vc"
    using assms(3) by (simp add: row_group_eq)
  show ?thesis
  proof (cases "vals_loop (mark_all primaryKeys) ?vc objects []")
    case (Inl e)
    from vals_loop_Inl [OF Inl] obtain obj' c' where
      "obj' \<in> set objects" "e = MissingKeyError c'" "mark_all primaryKeys c'" "map_of obj' c' = None"
      by blast
    then show ?thesis
      using Inl by (auto simp add: build_eq mark_all_iff)
  next
    case (Inr v)
    then have "\<forall>obj\<in>set objects. \<forall>c\<in>set ?vc. map_of obj c = None \<longrightarrow> \<not> mark_all primaryKeys c"
      by (simp add: vals_loop_Inr)
    with assms(1,2,4) c show ?thesis
      by (auto simp add: mark_all_iff)
  qed
qed

lemma length_concat_const:
  assumes "\<And>x. x \<in> set xs \<Longrightarrow> length (f x) = n"
  shows "length (concat (map f xs)) = length xs * n"
  using assms by (induction xs) auto

text \<open>
  Claim C7. Without \<open>onDupKeyUpdate\<close> every placeholder of the row group is a plain
  \<open>?\<close> that reads its own column, so the row group holds no subquery. With
  \<open>onDupKeyUpdate\<close> the placeholder of a preserved column is the correlated \<open>SELECT\<close>, whose
  parameters read the primary-key columns, one for each primary key, and the placeholder
  of any other column is a plain \<open>?\<close> that reads its own column. When the compilation
  succeeds, the statement is the head followed by one such row group for each record,
  the arguments are, record after record, the record's values of the columns that the
  placeholders read, and every primary-key column read has a value in every record.
\<close>

theorem row_template_by_policy:
  "(\<not> onDupKeyUpdate \<longrightarrow>
      row_group tableName onDupKeyUpdate primaryKeys preservedFields cols =
        (''('' @ Join (map (\<lambda>c. ''?'') cols) '','' @ '')'', cols)) \<and>
   (onDupKeyUpdate \<longrightarrow>
      row_group tableName onDupKeyUpdate primaryKeys preservedFields cols =
        (''('' @ Join (map (\<lambda>c. if c \<in> set preservedFields
                                then correlated_select tableName primaryKeys c else ''?'') cols) '','' @ '')'',
         concat (map (\<lambda>c. if c \<in> set preservedFields then primaryKeys else [c]) cols))) \<and>
   (buildSQLiteInsertSQL objects tableName onDupKeyUpdate primaryKeys preservedFields = Inr (insertSQL, vals) \<longrightarrow>
      insertSQL = insert_head tableName onDupKeyUpdate (columns objects preservedFields) @
        Join (replicate (length objects)
          (fst (row_group tableName onDupKeyUpdate primaryKeys preservedFields (columns objects preservedFields)))) '','' \<and>
      vals = concat (map (\<lambda>obj. map (arg_of obj)
          (snd (row_group tableName onDupKeyUpdate primaryKeys preservedFields (columns objects preservedFields)))) objects) \<and>
      (\<forall>obj\<in>set objects.
         \<forall>c\<in>set (snd (row_group tableName onDupKeyUpdate primaryKeys preservedFields (columns objects preservedFields))).
           c \<in> set primaryKeys \<longrightarrow> map_of obj c \<noteq> None))"
proof (intro conjI impI)
  assume "\<not> onDupKeyUpdate"
  then show "row_group tableName onDupKeyUpdate primaryKeys preservedFields cols =
        (''('' @ Join (map (\<lambda>c. ''?'') cols) '','' @ '')'', cols)"
    by (simp add: row_group_eq row_text_def placeholder_def [abs_def] bound_cols_def [abs_def])
next
  assume "onDupKeyUpdate"
  then show "row_group tableName onDupKeyUpdate primaryKeys preservedFields cols =
        (''('' @ Join (map (\<lambda>c. if c \<in> set preservedFields
                                then correlated_select tableName primaryKeys c else ''?'') cols) '','' @ '')'',
         concat (map (\<lambda>c. if c \<in> set preservedFields then primaryKeys else [c]) cols))"
    by (simp add: row_group_eq row_text_def placeholder_def [abs_def] bound_cols_def [abs_def])
next
  let ?cols = "columns objects preservedFields"
  let ?rg = "row_group tableName onDupKeyUpdate primaryKeys preservedFields ?cols"
  assume b: "buildSQLiteInsertSQL objects tableName onDupKeyUpdate primaryKeys preservedFields = Inr (insertSQL, vals)"
  then obtain v where
    v: "vals_loop (mark_all primaryKeys) (snd ?rg) objects [] = Inr v"
    and r: "insertSQL = insert_head tableName onDupKeyUpdate ?cols @ Join (replicate (length objects) (fst ?rg)) '',''"
      "vals = v"
    by (auto simp add: build_eq row_group_eq split: sum.splits)
  show "insertSQL = insert_head tableName onDupKeyUpdate ?cols @ Join (replicate (length objects) (fst ?rg)) '',''"
    by (rule r(1))
  show "vals = concat (map (\<lambda>obj. map (arg_of obj) (snd ?rg)) objects)"
    using v r(2) by (simp add: vals_loop_Inr)
  show "\<forall>obj\<in>set objects. \<forall>c\<in>set (snd ?rg). c \<in> set primaryKeys \<longrightarrow> map_of obj c \<noteq> None"
    using v by (auto simp add: vals_loop_Inr mark_all_iff)
qed

theorem row_template_by_policy_witness:
  "row_group ''t'' False [] [] [''a'', ''b''] = (''(?,?)'', [''a'', ''b'']) \<and>
   row_group ''t'' True [''id''] [''createdAt''] [''createdAt'', ''id'', ''name'']
     = (''((SELECT createdAt FROM t WHERE id = ?),?,?)'', [''id'', ''id'', ''name'']) \<and>
   buildSQLiteInsertSQL [[(''id'', JNum 1), (''name'', JStr ''x'')]] ''t'' True [''id''] [''createdAt'']
     = Inr (''INSERT OR REPLACE INTO t(createdAt,id,name) VALUES((SELECT createdAt FROM t WHERE id = ?),?,?)'',
            [JNum 1, JNum 1, JStr ''x'']) \<and>
   [JNum 1, JNum 1, JStr ''x'']
     = concat (map (\<lambda>obj. map (arg_of obj)
         (snd (row_group ''t'' True [''id''] [''createdAt'']
            (columns [[(''id'', JNum 1), (''name'', JStr ''x'')]] [''createdAt''])))) 
         [[(''id'', JNum 1), (''name'', JStr ''x'')]])"
proof -
  have b: "buildSQLiteInsertSQL [[(''id'', JNum 1), (''name'', JStr ''x'')]] ''t'' True [''id''] [''createdAt'']
     = Inr (''INSERT OR REPLACE INTO t(createdAt,id,name) VALUES((SELECT createdAt FROM t WHERE id = ?),?,?)'',
            [JNum 1, JNum 1, JStr ''x''])"
    by code_simp
  have one: "row_group ''t'' False [] [] [''a'', ''b''] = (''(?,?)'', [''a'', ''b''])"
    using row_template_by_policy [where onDupKeyUpdate = False and tableName = "''t''"
        and primaryKeys = "[]" and preservedFields = "[]" and cols = "[''a'', ''b'']"]
    by simp
  have two: "row_group ''t'' True [''id''] [''createdAt''] [''createdAt'', ''id'', ''name'']
     = (''((SELECT createdAt FROM t WHERE id = ?),?,?)'', [''id'', ''id'', ''name''])"
    using row_template_by_policy [where onDupKeyUpdate = True and tableName = "''t''"
        and primaryKeys = "[''id'']" and preservedFields = "[''createdAt'']"
        and cols = "[''createdAt'', ''id'', ''name'']"]
    by (simp add: correlated_select_def where_text_def)
  have three: "[JNum 1, JNum 1, JStr ''x'']
     = concat (map (\<lambda>obj. map (arg_of obj)
         (snd (row_group ''t'' True [''id''] [''createdAt'']
            (columns [[(''id'', JNum 1), (''name'', JStr ''x'')]] [''createdAt''])))) 
         [[(''id'', JNum 1), (''name'', JStr ''x'')]])"
    using row_template_by_policy [where onDupKeyUpdate = True and tableName = "''t''"
        and primaryKeys = "[''id'']" and preservedFields = "[''createdAt'']"
        and objects = "[[(''id'', JNum 1), (''name'', JStr ''x'')]]"
        and insertSQL = "''INSERT OR REPLACE INTO t(createdAt,id,name) VALUES((SELECT createdAt FROM t WHERE id = ?),?,?)''"
        and vals = "[JNum 1, JNum 1, JStr ''x'']"] b
    by blast
  from one two b three show ?thesis by blast
qed

text \<open>
  Claim C8. When the compilation succeeds, the argument list has as many entries as the
  number of records times the sum, over the columns, of the number of primary keys for a
  preserved column under \<open>onDupKeyUpdate\<close> and of 1 for any other column; it is the
  concatenation, record by record in the order of the batch, of the arguments of each
  column in the order of the column list; and a column bound to NULL because the record
  has no value for it is not a primary key.
\<close>

theorem argument_list_shape:
  assumes "buildSQLiteInsertSQL objects tableName onDupKeyUpdate primaryKeys preservedFields = Inr (insertSQL, vals)"
  shows "length vals = length objects *
           (\<Sum>c\<leftarrow>columns objects preservedFields.
              if onDupKeyUpdate \<and> c \<in> set preservedFields then length primaryKeys else 1) \<and>
         vals = concat (map (\<lambda>obj. concat (map (\<lambda>c.
                    if onDupKeyUpdate \<and> c \<in> set preservedFields
                    then map (arg_of obj) primaryKeys else [arg_of obj c])
                  (columns objects preservedFields))) objects) \<and>
         (\<forall>obj\<in>set objects. \<forall>c\<in>set (columns objects preservedFields).
            \<not> (onDupKeyUpdate \<and> c \<in> set preservedFields) \<and> map_of obj c = None \<longrightarrow> c \<notin> set primaryKeys)"
proof -
  let ?cols = "columns objects preservedFields"
  let ?bc = "bound_cols onDupKeyUpdate primaryKeys preservedFields"
  let ?vc = "concat (map ?bc ?cols)"
  from assms have v: "vals_loop (mark_all primaryKeys) ?vc objects [] = Inr vals"
    by (auto simp add: build_eq split: sum.splits)
  then have vals: "vals = concat (map (\<lambda>obj. map (arg_of obj) ?vc) objects)"
    and ok: "\<forall>obj\<in>set objects. \<forall>c\<in>set ?vc. map_of obj c = None \<longrightarrow> c \<notin> set primaryKeys"
    by (simp_all add: vals_loop_Inr mark_all_iff)
  have row: "map (arg_of obj) ?vc =
        concat (map (\<lambda>c. if onDupKeyUpdate \<and> c \<in> set preservedFields
                          then map (arg_of obj) primaryKeys else [arg_of obj c]) ?cols)" for obj
    by (simp add: map_concat comp_def bound_cols_def if_distrib cong: if_cong)
  have len_vc: "length ?vc =
        (\<Sum>c\<leftarrow>?cols. if onDupKeyUpdate \<and> c \<in> set preservedFields then length primaryKeys else 1)"
    by (simp add: length_concat comp_def bound_cols_def if_distrib cong: if_cong)
  have "length vals = length objects * length ?vc"
    unfolding vals by (rule length_concat_const) simp
  then have one: "length vals = length objects *
           (\<Sum>c\<leftarrow>?cols. if onDupKeyUpdate \<and> c \<in> set preservedFields then length primaryKeys else 1)"
    by (simp only: len_vc)
  have two: "vals = concat (map (\<lambda>obj. concat (map (\<lambda>c.
                    if onDupKeyUpdate \<and> c \<in> set preservedFields
                    then map (arg_of obj) primaryKeys else [arg_of obj c]) ?cols)) objects)"
    unfolding vals by (simp only: row)
  have three: "\<forall>obj\<in>set objects. \<forall>c\<in>set ?cols.
            \<not> (onDupKeyUpdate \<and> c \<in> set preservedFields) \<and> map_of obj c = None \<longrightarrow> c \<notin> set primaryKeys"
  proof (intro ballI impI)
    fix obj c
    assume o: "obj \<in> set objects" and c: "c \<in> set ?cols"
      and h: "\<not> (onDupKeyUpdate \<and> c \<in> set preservedFields) \<and> map_of obj c = None"
    from c h have "c \<in> set ?vc"
      by (auto simp add: bound_cols_def)
    with ok o h show "c \<notin> set primaryKeys" by blast
  qed
  from one two three show ?thesis by blast
qed

theorem argument_list_shape_witness:
  "buildSQLiteInsertSQL
     [[(''id'', JNum 1), (''k2'', JNum 2), (''name'', JStr ''x'')], [(''id'', JNum 3), (''k2'', JNum 4)]]
     ''t'' True [''id'', ''k2''] [''createdAt'']
   = Inr (''INSERT OR REPLACE INTO t(createdAt,id,k2,name) VALUES((SELECT createdAt FROM t WHERE id = ?AND k2 = ?),?,?,?),((SELECT createdAt FROM t WHERE id = ?AND k2 = ?),?,?,?)'',
          [JNum 1, JNum 2, JNum 1, JNum 2, JStr ''x'', JNum 3, JNum 4, JNum 3, JNum 4, JNull]) \<and>
   length [JNum 1, JNum 2, JNum 1, JNum 2, JStr ''x'', JNum 3, JNum 4, JNum 3, JNum 4, JNull]
   = length [[(''id'', JNum 1), (''k2'', JNum 2), (''name'', JStr ''x'')], [(''id'', JNum 3), (''k2'', JNum 4)]] *
       (\<Sum>c\<leftarrow>columns [[(''id'', JNum 1), (''k2'', JNum 2), (''name'', JStr ''x'')], [(''id'', JNum 3), (''k2'', JNum 4)]]
             [''createdAt''].
          if True \<and> c \<in> set [''createdAt''] then length [''id'', ''k2''] else 1)"
proof -
  have b: "buildSQLiteInsertSQL
     [[(''id'', JNum 1), (''k2'', JNum 2), (''name'', JStr ''x'')], [(''id'', JNum 3), (''k2'', JNum 4)]]
     ''t'' True [''id'', ''k2''] [''createdAt'']
   = Inr (''INSERT OR REPLACE INTO t(createdAt,id,k2,name) VALUES((SELECT createdAt FROM t WHERE id = ?AND k2 = ?),?,?,?),((SELECT createdAt FROM t WHERE id = ?AND k2 = ?),?,?,?)'',
          [JNum 1, JNum 2, JNum 1, JNum 2, JStr ''x'', JNum 3, JNum 4, JNum 3, JNum 4, JNull])"
    by code_simp
  from argument_list_shape [OF b] b show ?thesis by blast
qed

section \<open>The end-to-end example of the insert-only policy\<close>

text \<open>
  Claim C9, as stated: for the insert-only policy, table \<open>t\<close> and the batch
  \<open>[{a:1,b:2},{a:3}]\<close> the statement text is \<open>INSERT INTO t(a,b) VALUES (?,?),(?,?)\<close>, with
  a space after \<open>VALUES\<close>. The compiler does not produce that text.
\<close>

theorem insert_only_example_spaced_text_counterexample:
  "buildSQLiteInsertSQL [[(''a'', JNum 1), (''b'', JNum 2)], [(''a'', JNum 3)]] ''t'' False [] []
     \<noteq> Inr (''INSERT INTO t(a,b) VALUES (?,?),(?,?)'', [JNum 1, JNum 2, JNum 3, JNull])"
  by code_simp

text \<open>
  Claim C9, amended: for the insert-only policy, table \<open>t\<close> and the batch
  \<open>[{a:1,b:2},{a:3}]\<close> the compiler produces exactly the text
  \<open>INSERT INTO t(a,b) VALUES(?,?),(?,?)\<close>, the row groups following \<open>VALUES\<close> directly as
  the format comment of the source has it, and exactly the arguments \<open>[1, 2, 3, null]\<close>.
\<close>

theorem insert_only_example:
  "buildSQLiteInsertSQL [[(''a'', JNum 1), (''b'', JNum 2)], [(''a'', JNum 3)]] ''t'' False [] []
     = Inr (''INSERT INTO t(a,b) VALUES(?,?),(?,?)'', [JNum 1, JNum 2, JNum 3, JNull])"
  by code_simp

section \<open>The executor: calls on the database handle\<close>

lemma sqliteInsertObjects_build_fail:
  "buildSQLiteInsertSQL objects t odku pks pfs = Inl e \<Longrightarrow>
   sqliteInsertObjects tx objects t odku pks pfs tr = (Some e, tr)"
  by (simp add: sqliteInsertObjects_def)

lemma sqliteInsertObjects_ok:
  assumes "sqliteInsertObjects tx objects t odku pks pfs tr = (None, tr')"
  shows "\<exists>insertSQL vals. buildSQLiteInsertSQL objects t odku pks pfs = Inr (insertSQL, vals) \<and>
           tr' = tr @ chunk_events insertSQL vals"
  using assms
  by (auto simp add: sqliteInsertObjects_def call_def chunk_events_def
      split: sum.splits prod.splits option.splits)

lemma sqliteInsertObjects_trace:
  assumes "sqliteInsertObjects tx objects t odku pks pfs tr = (r, tr')"
  shows "\<exists>evs. tr' = tr @ evs \<and> Begin \<notin> set evs \<and> Commit \<notin> set evs \<and> Rollback \<notin> set evs \<and>
           length (filter is_statement evs) \<le> 2"
  using assms
  by (auto simp add: sqliteInsertObjects_def call_def
      split: sum.splits prod.splits option.splits)

lemma chunk_loop_step:
  assumes "0 < bs" and "i < length objects" and "i' = i + bs"
  shows "chunk_loop tx objects t odku pks pfs bs i tr =
         (case sqliteInsertObjects tx (take bs (drop i objects)) t odku pks pfs tr of
            (Some err, tr1) \<Rightarrow> (Some err, tr1 @ [Rollback])
          | (None, tr1) \<Rightarrow> chunk_loop tx objects t odku pks pfs bs i' tr1)"
proof -
  have "take ((if length objects < i + bs then length objects else i + bs) - i) (drop i objects)
        = take bs (drop i objects)"
    using assms by simp
  then show ?thesis
    unfolding assms(3) using assms(1,2) by (subst chunk_loop.simps) (simp add: Let_def)
qed

lemma chunk_loop_done:
  assumes "\<not> i < length objects"
  shows "chunk_loop tx objects t odku pks pfs bs i tr = (None, tr)"
  using assms by (subst chunk_loop.simps) simp

lemma chunk_loop_compile_failure:
  assumes "0 < bs" and "i + j * bs < length objects"
    and "buildSQLiteInsertSQL (take bs (drop (i + j * bs) objects)) t odku pks pfs = Inl e0"
  shows "\<exists>e evs. chunk_loop tx objects t odku pks pfs bs i tr = (Some e, tr @ evs @ [Rollback]) \<and>
           Begin \<notin> set evs \<and> Commit \<notin> set evs \<and> Rollback \<notin> set evs \<and>
           length (filter is_statement evs) \<le> 2 * j \<and> (j = 0 \<longrightarrow> e = e0 \<and> evs = [])"
  using assms(2,3)
proof (induction j arbitrary: i tr)
  case 0
  then have "chunk_loop tx objects t odku pks pfs bs i tr = (Some e0, tr @ [] @ [Rollback])"
    using assms(1) by (simp add: chunk_loop_step [OF _ _ refl] sqliteInsertObjects_build_fail)
  then show ?case by fastforce
next
  case (Suc j)
  have i: "i < length objects"
    using Suc.prems(1) by simp
  obtain r tr1 where run: "sqliteInsertObjects tx (take bs (drop i objects)) t odku pks pfs tr = (r, tr1)"
    by (cases "sqliteInsertObjects tx (take bs (drop i objects)) t odku pks pfs tr")
  from sqliteInsertObjects_trace [OF run] obtain evs1 where
    evs1: "tr1 = tr @ evs1" "Begin \<notin> set evs1" "Commit \<notin> set evs1" "Rollback \<notin> set evs1"
      "length (filter is_statement evs1) \<le> 2"
    by blast
  show ?case
  proof (cases r)
    case None
    have idx: "i + bs + j * bs = i + Suc j * bs" by simp
    from Suc.IH [of "i + bs" tr1] Suc.prems obtain e evs2 where
      rec: "chunk_loop tx objects t odku pks pfs bs (i + bs) tr1 = (Some e, tr1 @ evs2 @ [Rollback])"
        "Begin \<notin> set evs2" "Commit \<notin> set evs2" "Rollback \<notin> set evs2"
        "length (filter is_statement evs2) \<le> 2 * j"
      unfolding idx by blast
    have "chunk_loop tx objects t odku pks pfs bs i tr = (Some e, tr @ (evs1 @ evs2) @ [Rollback])"
      using assms(1) i run None rec(1) evs1(1) by (simp add: chunk_loop_step [OF _ _ refl])
    moreover have "length (filter is_statement (evs1 @ evs2)) \<le> 2 * Suc j"
      using evs1(5) rec(5) by simp
    ultimately show ?thesis
      using evs1(2-4) rec(2-4) by (intro exI [of _ e] exI [of _ "evs1 @ evs2"]) simp
  next
    case (Some e)
    have "chunk_loop tx objects t odku pks pfs bs i tr = (Some e, tr @ evs1 @ [Rollback])"
      using assms(1) i run Some evs1(1) by (simp add: chunk_loop_step [OF _ _ refl])
    then show ?thesis
      using evs1(2-5) by (intro exI [of _ e] exI [of _ evs1]) simp
  qed
qed

lemma chunk_loop_trace:
  "chunk_loop tx objects t odku pks pfs bs i tr = (r, tr') \<Longrightarrow>
     \<exists>evs. tr' = tr @ evs \<and> Begin \<notin> set evs \<and> Commit \<notin> set evs \<and> (r = None \<longrightarrow> Rollback \<notin> set evs)"
proof (induction tx objects t odku pks pfs bs i tr arbitrary: r tr' rule: chunk_loop.induct)
  case (1 tx objects t odku pks pfs bs i tr)
  show ?case
  proof (cases "0 < bs \<and> i < length objects")
    case False
    with "1.prems" have "tr' = tr" "r = None"
      by (simp_all add: chunk_loop.simps)
    then show ?thesis by simp
  next
    case True
    obtain r1 tr1 where run: "sqliteInsertObjects tx (take bs (drop i objects)) t odku pks pfs tr = (r1, tr1)"
      by (cases "sqliteInsertObjects tx (take bs (drop i objects)) t odku pks pfs tr")
    from sqliteInsertObjects_trace [OF run] obtain evs1 where
      evs1: "tr1 = tr @ evs1" "Begin \<notin> set evs1" "Commit \<notin> set evs1" "Rollback \<notin> set evs1"
      by blast
    have step: "chunk_loop tx objects t odku pks pfs bs i tr =
        (case r1 of Some err \<Rightarrow> (Some err, tr1 @ [Rollback])
         | None \<Rightarrow> chunk_loop tx objects t odku pks pfs bs (i + bs) tr1)"
      using True run by (simp add: chunk_loop_step [OF _ _ refl] split: option.splits)
    show ?thesis
    proof (cases r1)
      case (Some e)
      with step "1.prems" evs1 show ?thesis
        by (intro exI [of _ "evs1 @ [Rollback]"]) auto
    next
      case None
      have sl: "take ((if length objects < i + bs then length objects else i + bs) - i) (drop i objects)
            = take bs (drop i objects)"
        using True by simp
      have rec: "chunk_loop tx objects t odku pks pfs bs (i + bs) tr1 = (r, tr')"
        using step None "1.prems" by simp
      from "1.IH" [OF True refl _ refl rec] run None sl obtain evs2 where
        "tr' = tr1 @ evs2" "Begin \<notin> set evs2" "Commit \<notin> set evs2" "r = None \<longrightarrow> Rollback \<notin> set evs2"
        by auto
      with evs1 show ?thesis
        by (intro exI [of _ "evs1 @ evs2"]) auto
    qed
  qed
qed

lemma SQLiteInsertData_batched:
  assumes "0 < batchSize" and "parse d = Inr objects"
    and "\<not> (pfs \<noteq> [] \<and> pks = [])" and "db (tr @ [Begin]) = None"
  shows "SQLiteInsertData parse db d t odku pks pfs batchSize tr =
         (case chunk_loop db objects t odku pks pfs (nat batchSize) 0 (tr @ [Begin]) of
            (Some err, tr2) \<Rightarrow> (Returned (Some err), tr2)
          | (None, tr2) \<Rightarrow> (Returned None, tr2 @ [Commit]))"
  using assms by (auto simp add: SQLiteInsertData_def call_def)

section \<open>The configuration check\<close>

text \<open>
  Claim C10. Whenever \<open>preservedFields\<close> is non-empty and \<open>primaryKeys\<close> is empty,
  \<open>SQLiteInsertData\<close> returns the configuration error and leaves the trace of the
  database handle as it found it: no transaction is begun and no statement is prepared or
  executed. The result does not depend on the payload or on its decoder, so no record is
  processed.
\<close>

theorem config_error_before_store:
  assumes "preservedFields \<noteq> []" and "primaryKeys = []"
  shows "SQLiteInsertData parse db d tableName onDupKeyUpdate primaryKeys preservedFields batchSize tr
         = (Returned (Some ConfigError), tr)"
  using assms by (simp add: SQLiteInsertData_def)

theorem config_error_before_store_witness:
  "[''createdAt''] \<noteq> [] \<and> ([] :: string list) = [] \<and>
   SQLiteInsertData doc_ObjectsFromJSON ok_store (JObj [(''id'', JNum 1)]) ''t'' True [] [''createdAt''] 100 []
     = (Returned (Some ConfigError), [])"
  using config_error_before_store [of "[''createdAt'']" "[]" doc_ObjectsFromJSON ok_store
      "JObj [(''id'', JNum 1)]" "''t''" True 100 "[]"]
  by simp

section \<open>The unbatched path of the executor\<close>

text \<open>
  Claim C1 says that the commit is issued after the last statement has been executed,
  also for chunk size 0. At chunk size 0 and a one-record batch the executor commits
  first and prepares and executes the statement afterwards.
\<close>

theorem unbatched_commit_precedes_statement:
  "SQLiteInsertData doc_ObjectsFromJSON ok_store (JArr [JObj [(''a'', JNum 1)]]) ''t'' False [] [] 0 []
     = (Returned None,
        [Begin, Commit, Prepare ''INSERT INTO t(a) VALUES(?)'',
         Exec ''INSERT INTO t(a) VALUES(?)'' [JNum 1], LastInsertId, RowsAffected, Close])"
  by code_simp

text \<open>
  The path for a positive chunk size, in the same function, does commit last: when it
  returns without error, the commit is the last call and the only one of its kind, and
  nothing was rolled back.
\<close>

lemma batched_commit_is_last:
  assumes "0 < batchSize"
    and "SQLiteInsertData parse db d t odku pks pfs batchSize tr = (Returned None, tr')"
  shows "\<exists>evs. tr' = tr @ [Begin] @ evs @ [Commit] \<and> Begin \<notin> set evs \<and> Commit \<notin> set evs \<and> Rollback \<notin> set evs"
proof -
  from assms obtain objects where p: "parse d = Inr objects" and cfg: "\<not> (pfs \<noteq> [] \<and> pks = [])"
    and b: "db (tr @ [Begin]) = None"
    by (auto simp add: SQLiteInsertData_def call_def split: if_splits sum.splits option.splits prod.splits)
  obtain r2 tr2 where l: "chunk_loop db objects t odku pks pfs (nat batchSize) 0 (tr @ [Begin]) = (r2, tr2)"
    by (cases "chunk_loop db objects t odku pks pfs (nat batchSize) 0 (tr @ [Begin])")
  with assms SQLiteInsertData_batched [of batchSize parse d objects pfs pks db tr t odku] p cfg b
  have r2: "r2 = None" and t: "tr' = tr2 @ [Commit]"
    by (auto split: option.splits)
  from chunk_loop_trace [OF l] r2 t show ?thesis by auto
qed

section \<open>Five records in chunks of two\<close>

text \<open>
  Claim C5. For a batch of five records and chunk size 2, once the transaction is begun,
  the executor runs \<open>sqliteInsertObjects\<close> on the first two records, then on the next
  two, then on the last one, each on the trace the previous one left; the first error
  ends the run with a rollback as the last call and no commit. When there is no error the
  trace is the begin, the five calls of each of the three chunk statements in that
  order, and the commit.
\<close>

theorem five_records_in_chunks_of_two:
  assumes "length objects = 5" and "parse d = Inr objects"
    and "\<not> (preservedFields \<noteq> [] \<and> primaryKeys = [])" and "db (tr @ [Begin]) = None"
    and run: "SQLiteInsertData parse db d tableName onDupKeyUpdate primaryKeys preservedFields 2 tr = (r, tr')"
  shows "objects = take 2 objects @ take 2 (drop 2 objects) @ drop 4 objects \<and>
         length (take 2 objects) = 2 \<and> length (take 2 (drop 2 objects)) = 2 \<and> length (drop 4 objects) = 1 \<and>
         (r, tr') =
           (case sqliteInsertObjects db (take 2 objects) tableName onDupKeyUpdate primaryKeys preservedFields
                   (tr @ [Begin]) of
              (Some e, tr1) \<Rightarrow> (Returned (Some e), tr1 @ [Rollback])
            | (None, tr1) \<Rightarrow>
                (case sqliteInsertObjects db (take 2 (drop 2 objects)) tableName onDupKeyUpdate primaryKeys
                        preservedFields tr1 of
                   (Some e, tr2) \<Rightarrow> (Returned (Some e), tr2 @ [Rollback])
                 | (None, tr2) \<Rightarrow>
                     (case sqliteInsertObjects db (drop 4 objects) tableName onDupKeyUpdate primaryKeys
                             preservedFields tr2 of
                        (Some e, tr3) \<Rightarrow> (Returned (Some e), tr3 @ [Rollback])
                      | (None, tr3) \<Rightarrow> (Returned None, tr3 @ [Commit])))) \<and>
         (r = Returned None \<longrightarrow>
            (\<exists>s1 v1 s2 v2 s3 v3.
               buildSQLiteInsertSQL (take 2 objects) tableName onDupKeyUpdate primaryKeys preservedFields = Inr (s1, v1) \<and>
               buildSQLiteInsertSQL (take 2 (drop 2 objects)) tableName onDupKeyUpdate primaryKeys preservedFields = Inr (s2, v2) \<and>
               buildSQLiteInsertSQL (drop 4 objects) tableName onDupKeyUpdate primaryKeys preservedFields = Inr (s3, v3) \<and>
               tr' = tr @ [Begin] @ chunk_events s1 v1 @ chunk_events s2 v2 @ chunk_events s3 v3 @ [Commit])) \<and>
         (r \<noteq> Returned None \<longrightarrow>
            (\<exists>e evs. r = Returned (Some e) \<and> tr' = tr @ [Begin] @ evs @ [Rollback] \<and>
               Begin \<notin> set evs \<and> Commit \<notin> set evs \<and> Rollback \<notin> set evs))"
proof -
  let ?c1 = "take 2 objects" and ?c2 = "take 2 (drop 2 objects)" and ?c3 = "drop 4 objects"
  let ?ins = "\<lambda>c. sqliteInsertObjects db c tableName onDupKeyUpdate primaryKeys preservedFields"
  have split: "objects = ?c1 @ ?c2 @ ?c3"
  proof -
    have "?c2 @ ?c3 = drop 2 objects"
      by (metis append_take_drop_id drop_drop numeral_Bit0)
    then show ?thesis by simp
  qed
  have lens: "length ?c1 = 2" "length ?c2 = 2" "length ?c3 = 1"
    using assms(1) by simp_all
  have c3: "take 2 (drop 4 objects) = ?c3"
    using assms(1) by simp
  obtain r1 t1 where i1: "?ins ?c1 (tr @ [Begin]) = (r1, t1)" by (cases "?ins ?c1 (tr @ [Begin])")
  obtain r2 t2 where i2: "?ins ?c2 t1 = (r2, t2)" by (cases "?ins ?c2 t1")
  obtain r3 t3 where i3: "?ins ?c3 t2 = (r3, t3)" by (cases "?ins ?c3 t2")
  let ?loop = "chunk_loop db objects tableName onDupKeyUpdate primaryKeys preservedFields 2"
  have s0: "?loop 0 (tr @ [Begin]) =
      (case r1 of Some e \<Rightarrow> (Some e, t1 @ [Rollback]) | None \<Rightarrow> ?loop 2 t1)"
    using chunk_loop_step [of 2 0 objects 2 db tableName onDupKeyUpdate primaryKeys preservedFields "tr @ [Begin]"]
      assms(1) i1 by (simp split: option.splits)
  have s2: "?loop 2 t1 =
      (case r2 of Some e \<Rightarrow> (Some e, t2 @ [Rollback]) | None \<Rightarrow> ?loop 4 t2)"
    using chunk_loop_step [of 2 2 objects 4 db tableName onDupKeyUpdate primaryKeys preservedFields t1]
      assms(1) i2 by (simp split: option.splits)
  have s4: "?loop 4 t2 =
      (case r3 of Some e \<Rightarrow> (Some e, t3 @ [Rollback]) | None \<Rightarrow> ?loop 6 t3)"
    using chunk_loop_step [of 2 4 objects 6 db tableName onDupKeyUpdate primaryKeys preservedFields t2]
      assms(1) i3 c3 by (simp split: option.splits)
  have s6: "?loop 6 t3 = (None, t3)"
    using assms(1) by (simp add: chunk_loop_done)
  have res: "(r, tr') =
      (case r1 of Some e \<Rightarrow> (Returned (Some e), t1 @ [Rollback])
       | None \<Rightarrow>
          (case r2 of Some e \<Rightarrow> (Returned (Some e), t2 @ [Rollback])
           | None \<Rightarrow>
              (case r3 of Some e \<Rightarrow> (Returned (Some e), t3 @ [Rollback])
               | None \<Rightarrow> (Returned None, t3 @ [Commit]))))"
    using SQLiteInsertData_batched [of 2 parse d objects preservedFields primaryKeys db tr tableName onDupKeyUpdate]
      assms(2-4) run
    by (simp add: s0 s2 s4 s6 split: option.splits)
  have eq: "(r, tr') =
      (case ?ins ?c1 (tr @ [Begin]) of
         (Some e, tr1) \<Rightarrow> (Returned (Some e), tr1 @ [Rollback])
       | (None, tr1) \<Rightarrow>
           (case ?ins ?c2 tr1 of
              (Some e, tr2) \<Rightarrow> (Returned (Some e), tr2 @ [Rollback])
            | (None, tr2) \<Rightarrow>
                (case ?ins ?c3 tr2 of
                   (Some e, tr3) \<Rightarrow> (Returned (Some e), tr3 @ [Rollback])
                 | (None, tr3) \<Rightarrow> (Returned None, tr3 @ [Commit]))))"
  proof (cases r1)
    case (Some e)
    with res i1 show ?thesis by simp
  next
    case n1: None
    show ?thesis
    proof (cases r2)
      case (Some e)
      with res n1 i1 i2 show ?thesis by simp
    next
      case n2: None
      show ?thesis
      proof (cases r3)
        case (Some e)
        with res n1 n2 i1 i2 i3 show ?thesis by simp
      next
        case None
        with res n1 n2 i1 i2 i3 show ?thesis by simp
      qed
    qed
  qed
  from sqliteInsertObjects_trace [OF i1] obtain e1 where
    e1: "t1 = (tr @ [Begin]) @ e1" "Begin \<notin> set e1" "Commit \<notin> set e1" "Rollback \<notin> set e1" by blast
  from sqliteInsertObjects_trace [OF i2] obtain e2 where
    e2: "t2 = t1 @ e2" "Begin \<notin> set e2" "Commit \<notin> set e2" "Rollback \<notin> set e2" by blast
  from sqliteInsertObjects_trace [OF i3] obtain e3 where
    e3: "t3 = t2 @ e3" "Begin \<notin> set e3" "Commit \<notin> set e3" "Rollback \<notin> set e3" by blast
  have ok: "r = Returned None \<longrightarrow>
            (\<exists>s1 v1 s2 v2 s3 v3.
               buildSQLiteInsertSQL ?c1 tableName onDupKeyUpdate primaryKeys preservedFields = Inr (s1, v1) \<and>
               buildSQLiteInsertSQL ?c2 tableName onDupKeyUpdate primaryKeys preservedFields = Inr (s2, v2) \<and>
               buildSQLiteInsertSQL ?c3 tableName onDupKeyUpdate primaryKeys preservedFields = Inr (s3, v3) \<and>
               tr' = tr @ [Begin] @ chunk_events s1 v1 @ chunk_events s2 v2 @ chunk_events s3 v3 @ [Commit])"
  proof
    assume "r = Returned None"
    with res have n: "r1 = None" "r2 = None" "r3 = None" and t: "tr' = t3 @ [Commit]"
      by (auto split: option.splits)
    from sqliteInsertObjects_ok [OF i1 [unfolded n]] sqliteInsertObjects_ok [OF i2 [unfolded n]]
      sqliteInsertObjects_ok [OF i3 [unfolded n]] t
    show "\<exists>s1 v1 s2 v2 s3 v3.
               buildSQLiteInsertSQL ?c1 tableName onDupKeyUpdate primaryKeys preservedFields = Inr (s1, v1) \<and>
               buildSQLiteInsertSQL ?c2 tableName onDupKeyUpdate primaryKeys preservedFields = Inr (s2, v2) \<and>
               buildSQLiteInsertSQL ?c3 tableName onDupKeyUpdate primaryKeys preservedFields = Inr (s3, v3) \<and>
               tr' = tr @ [Begin] @ chunk_events s1 v1 @ chunk_events s2 v2 @ chunk_events s3 v3 @ [Commit]"
      by auto
  qed
  have bad: "r \<noteq> Returned None \<longrightarrow>
            (\<exists>e evs. r = Returned (Some e) \<and> tr' = tr @ [Begin] @ evs @ [Rollback] \<and>
               Begin \<notin> set evs \<and> Commit \<notin> set evs \<and> Rollback \<notin> set evs)"
  proof
    assume nz: "r \<noteq> Returned None"
    consider (a) e where "r1 = Some e" | (b) e where "r1 = None" "r2 = Some e"
      | (c) e where "r1 = None" "r2 = None" "r3 = Some e" | (d) "r1 = None" "r2 = None" "r3 = None"
      by (cases r1; cases r2; cases r3) auto
    then show "\<exists>e evs. r = Returned (Some e) \<and> tr' = tr @ [Begin] @ evs @ [Rollback] \<and>
               Begin \<notin> set evs \<and> Commit \<notin> set evs \<and> Rollback \<notin> set evs"
    proof cases
      case a
      with res e1 show ?thesis by (intro exI [of _ e] exI [of _ e1]) simp
    next
      case b
      with res e1 e2 show ?thesis by (intro exI [of _ e] exI [of _ "e1 @ e2"]) simp
    next
      case c
      with res e1 e2 e3 show ?thesis by (intro exI [of _ e] exI [of _ "e1 @ e2 @ e3"]) simp
    next
      case d
      with res nz show ?thesis by simp
    qed
  qed
  from split lens eq ok bad show ?thesis by blast
qed

theorem five_records_in_chunks_of_two_witness:
  "SQLiteInsertData doc_ObjectsFromJSON ok_store
     (JArr [JObj [(''a'', JNum 1)], JObj [(''a'', JNum 2)], JObj [(''a'', JNum 3)],
            JObj [(''a'', JNum 4)], JObj [(''a'', JNum 5)]]) ''t'' False [] [] 2 []
   = (Returned None,
      [Begin] @ chunk_events ''INSERT INTO t(a) VALUES(?),(?)'' [JNum 1, JNum 2]
        @ chunk_events ''INSERT INTO t(a) VALUES(?),(?)'' [JNum 3, JNum 4]
        @ chunk_events ''INSERT INTO t(a) VALUES(?)'' [JNum 5] @ [Commit]) \<and>
   SQLiteInsertData doc_ObjectsFromJSON
     (failing_at (Exec ''INSERT INTO t(a) VALUES(?),(?)'' [JNum 3, JNum 4]))
     (JArr [JObj [(''a'', JNum 1)], JObj [(''a'', JNum 2)], JObj [(''a'', JNum 3)],
            JObj [(''a'', JNum 4)], JObj [(''a'', JNum 5)]]) ''t'' False [] [] 2 []
   = (Returned (Some (StoreError ''failed'')),
      [Begin] @ chunk_events ''INSERT INTO t(a) VALUES(?),(?)'' [JNum 1, JNum 2]
        @ [Prepare ''INSERT INTO t(a) VALUES(?),(?)'',
           Exec ''INSERT INTO t(a) VALUES(?),(?)'' [JNum 3, JNum 4], Close, Rollback])"
proof -
  let ?objs = "[[(''a'', JNum 1)], [(''a'', JNum 2)], [(''a'', JNum 3)], [(''a'', JNum 4)], [(''a'', JNum 5)]]"
  let ?d = "JArr [JObj [(''a'', JNum 1)], JObj [(''a'', JNum 2)], JObj [(''a'', JNum 3)],
            JObj [(''a'', JNum 4)], JObj [(''a'', JNum 5)]]"
  let ?bad = "failing_at (Exec ''INSERT INTO t(a) VALUES(?),(?)'' [JNum 3, JNum 4])"
  have h1: "length ?objs = 5" by simp
  have h2: "doc_ObjectsFromJSON ?d = Inr ?objs" by code_simp
  have h3: "\<not> (([] :: string list) \<noteq> [] \<and> ([] :: string list) = [])" by simp
  have h4: "ok_store ([] @ [Begin]) = None" by (simp add: ok_store_def)
  have h4': "?bad ([] @ [Begin]) = None" by (simp add: failing_at_def)
  obtain r tr' where run: "SQLiteInsertData doc_ObjectsFromJSON ok_store ?d ''t'' False [] [] 2 [] = (r, tr')"
    by (cases "SQLiteInsertData doc_ObjectsFromJSON ok_store ?d ''t'' False [] [] 2 []")
  obtain r2 tr2 where run2: "SQLiteInsertData doc_ObjectsFromJSON ?bad ?d ''t'' False [] [] 2 [] = (r2, tr2)"
    by (cases "SQLiteInsertData doc_ObjectsFromJSON ?bad ?d ''t'' False [] [] 2 []")
  have c1: "sqliteInsertObjects ok_store (take 2 ?objs) ''t'' False [] [] ([] @ [Begin])
      = (None, [Begin] @ chunk_events ''INSERT INTO t(a) VALUES(?),(?)'' [JNum 1, JNum 2])"
    by code_simp
  have c2: "sqliteInsertObjects ok_store (take 2 (drop 2 ?objs)) ''t'' False [] []
        ([Begin] @ chunk_events ''INSERT INTO t(a) VALUES(?),(?)'' [JNum 1, JNum 2])
      = (None, [Begin] @ chunk_events ''INSERT INTO t(a) VALUES(?),(?)'' [JNum 1, JNum 2]
           @ chunk_events ''INSERT INTO t(a) VALUES(?),(?)'' [JNum 3, JNum 4])"
    by code_simp
  have c3: "sqliteInsertObjects ok_store (drop 4 ?objs) ''t'' False [] []
        ([Begin] @ chunk_events ''INSERT INTO t(a) VALUES(?),(?)'' [JNum 1, JNum 2]
           @ chunk_events ''INSERT INTO t(a) VALUES(?),(?)'' [JNum 3, JNum 4])
      = (None, [Begin] @ chunk_events ''INSERT INTO t(a) VALUES(?),(?)'' [JNum 1, JNum 2]
           @ chunk_events ''INSERT INTO t(a) VALUES(?),(?)'' [JNum 3, JNum 4]
           @ chunk_events ''INSERT INTO t(a) VALUES(?)'' [JNum 5])"
    by code_simp
  have b1: "sqliteInsertObjects ?bad (take 2 ?objs) ''t'' False [] [] ([] @ [Begin])
      = (None, [Begin] @ chunk_events ''INSERT INTO t(a) VALUES(?),(?)'' [JNum 1, JNum 2])"
    by code_simp
  have b2: "sqliteInsertObjects ?bad (take 2 (drop 2 ?objs)) ''t'' False [] []
        ([Begin] @ chunk_events ''INSERT INTO t(a) VALUES(?),(?)'' [JNum 1, JNum 2])
      = (Some (StoreError ''failed''),
         [Begin] @ chunk_events ''INSERT INTO t(a) VALUES(?),(?)'' [JNum 1, JNum 2]
           @ [Prepare ''INSERT INTO t(a) VALUES(?),(?)'',
              Exec ''INSERT INTO t(a) VALUES(?),(?)'' [JNum 3, JNum 4], Close])"
    by code_simp
  from five_records_in_chunks_of_two [where parse = doc_ObjectsFromJSON and d = ?d and db = ok_store,
      OF h1 h2 h3 h4 run]
  have "(r, tr') = (Returned None,
      [Begin] @ chunk_events ''INSERT INTO t(a) VALUES(?),(?)'' [JNum 1, JNum 2]
        @ chunk_events ''INSERT INTO t(a) VALUES(?),(?)'' [JNum 3, JNum 4]
        @ chunk_events ''INSERT INTO t(a) VALUES(?)'' [JNum 5] @ [Commit])"
    by (simp only: c1 c2 c3 prod.case option.case) simp
  moreover
  from five_records_in_chunks_of_two [where parse = doc_ObjectsFromJSON and d = ?d and db = ?bad,
      OF h1 h2 h3 h4' run2]
  have "(r2, tr2) = (Returned (Some (StoreError ''failed'')),
      [Begin] @ chunk_events ''INSERT INTO t(a) VALUES(?),(?)'' [JNum 1, JNum 2]
        @ [Prepare ''INSERT INTO t(a) VALUES(?),(?)'',
           Exec ''INSERT INTO t(a) VALUES(?),(?)'' [JNum 3, JNum 4], Close, Rollback])"
    by (simp only: b1 b2 prod.case option.case) simp
  ultimately show ?thesis
    using run run2 by simp
qed

section \<open>A record without a primary-key value\<close>

text \<open>
  Claim C4, as stated: when a record lacks a primary-key value that the compiler reads,
  no statement is executed against the store. With chunk size 1 and a batch whose second
  record lacks \<open>id\<close>, the statement of the first chunk is prepared and executed before
  the second chunk fails to compile.
\<close>

theorem missing_key_after_executed_chunk_counterexample:
  "SQLiteInsertData doc_ObjectsFromJSON ok_store
     (JArr [JObj [(''id'', JNum 1), (''name'', JStr ''x'')], JObj [(''name'', JStr ''y'')]])
     ''t'' True [''id''] [''createdAt''] 1 []
   = (Returned (Some (MissingKeyError ''id'')),
      [Begin,
       Prepare ''INSERT OR REPLACE INTO t(createdAt,id,name) VALUES((SELECT createdAt FROM t WHERE id = ?),?,?)'',
       Exec ''INSERT OR REPLACE INTO t(createdAt,id,name) VALUES((SELECT createdAt FROM t WHERE id = ?),?,?)''
         [JNum 1, JNum 1, JStr ''x''],
       LastInsertId, RowsAffected, Close, Rollback])"
  by code_simp

text \<open>
  Claim C4, amended: for a positive chunk size, once the transaction is begun, if a
  record of chunk \<open>j\<close> lacks a value for a primary-key column that the compiler reads for
  that chunk, then compiling the chunk fails with the missing-key error naming a
  primary-key column that a record of the chunk lacks; the executor returns an error,
  the last call is the rollback and nothing is committed; only the chunks before \<open>j\<close> can
  have sent statements, at most a prepare and an execute each. When the offending record
  is in the first chunk, nothing is sent between begin and rollback and the error
  returned is the missing-key error.
\<close>

theorem missing_key_rolls_back:
  assumes "0 < batchSize" and "parse d = Inr objects" and "db (tr @ [Begin]) = None"
    and "obj \<in> set (take (nat batchSize) (drop (j * nat batchSize) objects))"
    and "c \<in> set primaryKeys"
    and "c \<in> set (snd (row_group tableName onDupKeyUpdate primaryKeys preservedFields
              (columns (take (nat batchSize) (drop (j * nat batchSize) objects)) preservedFields)))"
    and "map_of obj c = None"
  shows "\<exists>e evs c'.
           SQLiteInsertData parse db d tableName onDupKeyUpdate primaryKeys preservedFields batchSize tr
             = (Returned (Some e), tr @ [Begin] @ evs @ [Rollback]) \<and>
           Begin \<notin> set evs \<and> Commit \<notin> set evs \<and> Rollback \<notin> set evs \<and>
           length (filter is_statement evs) \<le> 2 * j \<and>
           buildSQLiteInsertSQL (take (nat batchSize) (drop (j * nat batchSize) objects)) tableName
             onDupKeyUpdate primaryKeys preservedFields = Inl (MissingKeyError c') \<and>
           c' \<in> set primaryKeys \<and>
           (\<exists>obj'\<in>set (take (nat batchSize) (drop (j * nat batchSize) objects)). map_of obj' c' = None) \<and>
           (j = 0 \<longrightarrow> e = MissingKeyError c' \<and> evs = [])"
proof -
  let ?bs = "nat batchSize"
  let ?chunk = "take ?bs (drop (j * ?bs) objects)"
  have bs: "0 < ?bs" using assms(1) by simp
  have "?chunk \<noteq> []" using assms(4) by auto
  then have j: "0 + j * ?bs < length objects" by auto
  from build_missing_key [OF assms(4,5,6,7)] obtain c' where
    c': "buildSQLiteInsertSQL ?chunk tableName onDupKeyUpdate primaryKeys preservedFields = Inl (MissingKeyError c')"
      "c' \<in> set primaryKeys" "\<exists>obj'\<in>set ?chunk. map_of obj' c' = None"
    by blast
  have c0: "buildSQLiteInsertSQL (take ?bs (drop (0 + j * ?bs) objects)) tableName onDupKeyUpdate
              primaryKeys preservedFields = Inl (MissingKeyError c')"
    using c'(1) by simp
  from chunk_loop_compile_failure [OF bs j c0, of db "tr @ [Begin]"] obtain e evs where
    loop: "chunk_loop db objects tableName onDupKeyUpdate primaryKeys preservedFields ?bs 0 (tr @ [Begin])
             = (Some e, (tr @ [Begin]) @ evs @ [Rollback])"
      "Begin \<notin> set evs" "Commit \<notin> set evs" "Rollback \<notin> set evs"
      "length (filter is_statement evs) \<le> 2 * j" "j = 0 \<longrightarrow> e = MissingKeyError c' \<and> evs = []"
    by blast
  have cfg: "\<not> (preservedFields \<noteq> [] \<and> primaryKeys = [])"
    using assms(5) by auto
  have "SQLiteInsertData parse db d tableName onDupKeyUpdate primaryKeys preservedFields batchSize tr
          = (Returned (Some e), tr @ [Begin] @ evs @ [Rollback])"
    using SQLiteInsertData_batched [of batchSize parse d objects preservedFields primaryKeys db tr
        tableName onDupKeyUpdate] assms(1,2,3) cfg loop(1)
    by simp
  with loop(2-6) c' show ?thesis by blast
qed

theorem missing_key_rolls_back_witness:
  "(0::int) < 1 \<and>
   doc_ObjectsFromJSON (JArr [JObj [(''id'', JNum 1), (''name'', JStr ''x'')], JObj [(''name'', JStr ''y'')]])
     = Inr [[(''id'', JNum 1), (''name'', JStr ''x'')], [(''name'', JStr ''y'')]] \<and>
   ok_store ([] @ [Begin]) = None \<and>
   [(''name'', JStr ''y'')] \<in> set (take (nat 1) (drop (1 * nat 1)
       [[(''id'', JNum 1), (''name'', JStr ''x'')], [(''name'', JStr ''y'')]])) \<and>
   ''id'' \<in> set [''id''] \<and>
   ''id'' \<in> set (snd (row_group ''t'' True [''id''] [''createdAt'']
       (columns (take (nat 1) (drop (1 * nat 1)
          [[(''id'', JNum 1), (''name'', JStr ''x'')], [(''name'', JStr ''y'')]])) [''createdAt'']))) \<and>
   map_of [(''name'', JStr ''y'')] ''id'' = None \<and>
   (\<exists>e evs. SQLiteInsertData doc_ObjectsFromJSON ok_store
       (JArr [JObj [(''id'', JNum 1), (''name'', JStr ''x'')], JObj [(''name'', JStr ''y'')]])
       ''t'' True [''id''] [''createdAt''] 1 []
       = (Returned (Some e), Begin # evs @ [Rollback]) \<and>
     Commit \<notin> set evs \<and> length (filter is_statement evs) \<le> 2)"
proof -
  let ?o1 = "[(''id'', JNum 1), (''name'', JStr ''x'')]" and ?o2 = "[(''name'', JStr ''y'')]"
  have h1: "(0::int) < 1" by simp
  have h2: "doc_ObjectsFromJSON (JArr [JObj ?o1, JObj ?o2]) = Inr [?o1, ?o2]" by code_simp
  have h3: "ok_store ([] @ [Begin]) = None" by (simp add: ok_store_def)
  have h4: "?o2 \<in> set (take (nat 1) (drop (1 * nat 1) [?o1, ?o2]))" by simp
  have h5: "''id'' \<in> set [''id'']" by simp
  have h6: "''id'' \<in> set (snd (row_group ''t'' True [''id''] [''createdAt'']
       (columns (take (nat 1) (drop (1 * nat 1) [?o1, ?o2])) [''createdAt''])))" by code_simp
  have h7: "map_of ?o2 ''id'' = None" by simp
  from missing_key_rolls_back [where parse = doc_ObjectsFromJSON and db = ok_store and tr = "[]"
      and batchSize = 1 and j = 1 and obj = ?o2 and c = "''id''" and primaryKeys = "[''id'']"
      and tableName = "''t''" and onDupKeyUpdate = True and preservedFields = "[''createdAt'']"
      and d = "JArr [JObj ?o1, JObj ?o2]" and objects = "[?o1, ?o2]", OF h1 h2 h3 h4 h5 h6 h7]
  have "\<exists>e evs. SQLiteInsertData doc_ObjectsFromJSON ok_store (JArr [JObj ?o1, JObj ?o2])
       ''t'' True [''id''] [''createdAt''] 1 []
       = (Returned (Some e), Begin # evs @ [Rollback]) \<and>
     Commit \<notin> set evs \<and> length (filter is_statement evs) \<le> 2"
    by auto
  with h1 h2 h3 h4 h5 h6 h7 show ?thesis by blast
qed

section \<open>The writer stage and the output channel\<close>

text \<open>
  Claim C2, as stated: when the write succeeds, \<open>SQLiteWriter.ProcessData\<close> sends the
  item on the output channel. On a plain one-record object and a handle on which every
  call succeeds, the write is carried out and committed, nothing reaches the kill
  channel, and the output channel stays empty.
\<close>

theorem writer_sends_nothing_counterexample:
  "ProcessData doc_data (NewSQLiteWriter ok_store ''static'') (JObj [(''a'', JNum 1)])
     \<lparr>outputChan = [], killChan = [], dbTrace = []\<rparr>
   = \<lparr>outputChan = [], killChan = [],
      dbTrace = [Begin, Prepare ''INSERT OR REPLACE INTO static(a) VALUES(?)'',
                 Exec ''INSERT OR REPLACE INTO static(a) VALUES(?)'' [JNum 1],
                 LastInsertId, RowsAffected, Close, Commit]\<rparr>"
  by code_simp

lemma insert_and_report_outputChan:
  "outputChan (insert_and_report dp s d tableName w) = outputChan w"
  by (simp add: insert_and_report_def split: prod.splits outcome.splits)

text \<open>
  Claim C2, amended: \<open>SQLiteWriter.ProcessData\<close> never sends on the output channel, it is
  a sink. When the write succeeds, so that nothing is sent to the kill channel, the item
  is forwarded by the reader and writer composite: its function for each query result
  runs the writer on the result and then sends that result, unmodified, on the output
  channel.
\<close>

theorem writer_is_sink_composite_forwards:
  "outputChan (ProcessData dp s d w) = outputChan w \<and>
   (killChan (ProcessData dp s d w) = killChan w \<longrightarrow>
      outputChan (forEach dp s d w) = outputChan w @ [d])"
proof -
  have sink: "outputChan (ProcessData dp s d w) = outputChan w"
    by (simp add: ProcessData_def insert_and_report_outputChan split: sum.splits prod.splits)
  then show ?thesis
    by (simp add: forEach_def Let_def)
qed

theorem writer_is_sink_composite_forwards_witness:
  "killChan (ProcessData doc_data (NewSQLiteWriter ok_store ''static'') (JObj [(''b'', JNum 2)])
      \<lparr>outputChan = [], killChan = [], dbTrace = []\<rparr>)
     = killChan \<lparr>outputChan = ([] :: json list), killChan = [], dbTrace = []\<rparr> \<and>
   outputChan (ProcessData doc_data (NewSQLiteWriter ok_store ''static'') (JObj [(''b'', JNum 2)])
      \<lparr>outputChan = [], killChan = [], dbTrace = []\<rparr>) = [] \<and>
   outputChan (forEach doc_data (NewSQLiteWriter ok_store ''static'') (JObj [(''b'', JNum 2)])
      \<lparr>outputChan = [], killChan = [], dbTrace = []\<rparr>) = [JObj [(''b'', JNum 2)]]"
proof -
  have ok: "killChan (ProcessData doc_data (NewSQLiteWriter ok_store ''static'') (JObj [(''b'', JNum 2)])
      \<lparr>outputChan = [], killChan = [], dbTrace = []\<rparr>)
     = killChan \<lparr>outputChan = ([] :: json list), killChan = [], dbTrace = []\<rparr>"
    by code_simp
  from writer_is_sink_composite_forwards [of doc_data "NewSQLiteWriter ok_store ''static''"
      "JObj [(''b'', JNum 2)]" "\<lparr>outputChan = [], killChan = [], dbTrace = []\<rparr>"] ok
  show ?thesis by simp
qed

section \<open>Envelopes without a table name or without a payload\<close>

text \<open>
  Claim C3, as stated: an item that decodes as an envelope with an empty table name
  fails with a parse error. On the envelope \<open>{table: "", payload: [{a:1}]}\<close> the stage
  reports no error at all and writes the envelope itself, as a one-record batch with the
  columns \<open>payload\<close> and \<open>table\<close>, to the configured table.
\<close>

theorem envelope_without_table_counterexample:
  "ProcessData doc_data (NewSQLiteWriter ok_store ''static'')
     (JObj [(''table'', JStr []), (''payload'', JArr [JObj [(''a'', JNum 1)]])])
     \<lparr>outputChan = [], killChan = [], dbTrace = []\<rparr>
   = \<lparr>outputChan = [], killChan = [],
      dbTrace = [Begin, Prepare ''INSERT OR REPLACE INTO static(payload,table) VALUES(?,?)'',
                 Exec ''INSERT OR REPLACE INTO static(payload,table) VALUES(?,?)''
                   [JArr [JObj [(''a'', JNum 1)]], JStr []],
                 LastInsertId, RowsAffected, Close, Commit]\<rparr>"
  by code_simp

text \<open>
  Claim C3, amended: an item that decodes as an envelope whose table name is empty or
  whose payload is absent is handled as plain data: the stage runs the executor on the
  item itself against the configured table, and sends to the kill channel the error of
  that run, if there is one.
\<close>

theorem envelope_without_table_or_payload_is_plain_data:
  assumes "ParseJSON dp d = Inr wd"
    and "wd_TableName wd = [] \<or> wd_InsertData wd = JNull"
  shows "ProcessData dp s d w =
         (case SQLiteInsertData (ObjectsFromJSON dp) (writeDB s) d (TableName s) (OnDupKeyUpdate s)
                 (PrimaryKeys s) (PreservedFields s) (BatchSize s) (dbTrace w) of
            (Returned err, tr) \<Rightarrow> w\<lparr>killChan := KillPipelineIfErr err (killChan w), dbTrace := tr\<rparr>
          | (Panicked e, tr) \<Rightarrow> w\<lparr>killChan := KillPipelineIfErr (Some e) (killChan w), dbTrace := tr\<rparr>)"
  using assms by (auto simp add: ProcessData_def insert_and_report_def)

theorem envelope_without_table_or_payload_is_plain_data_witness:
  "ParseJSON doc_data (JObj [(''table'', JStr ''u'')]) = Inr \<lparr>wd_TableName = ''u'', wd_InsertData = JNull\<rparr> \<and>
   ProcessData doc_data (NewSQLiteWriter ok_store ''static'') (JObj [(''table'', JStr ''u'')])
     \<lparr>outputChan = [], killChan = [], dbTrace = []\<rparr>
   = \<lparr>outputChan = [], killChan = [],
      dbTrace = [Begin, Prepare ''INSERT OR REPLACE INTO static(table) VALUES(?)'',
                 Exec ''INSERT OR REPLACE INTO static(table) VALUES(?)'' [JStr ''u''],
                 LastInsertId, RowsAffected, Close, Commit]\<rparr>"
proof -
  have dec: "ParseJSON doc_data (JObj [(''table'', JStr ''u'')])
             = Inr \<lparr>wd_TableName = ''u'', wd_InsertData = JNull\<rparr>"
    by (simp add: doc_data_def doc_ParseJSON_def)
  have run: "SQLiteInsertData (ObjectsFromJSON doc_data) (writeDB (NewSQLiteWriter ok_store ''static''))
               (JObj [(''table'', JStr ''u'')]) (TableName (NewSQLiteWriter ok_store ''static''))
               (OnDupKeyUpdate (NewSQLiteWriter ok_store ''static''))
               (PrimaryKeys (NewSQLiteWriter ok_store ''static''))
               (PreservedFields (NewSQLiteWriter ok_store ''static''))
               (BatchSize (NewSQLiteWriter ok_store ''static'')) []
             = (Returned None,
                [Begin, Prepare ''INSERT OR REPLACE INTO static(table) VALUES(?)'',
                 Exec ''INSERT OR REPLACE INTO static(table) VALUES(?)'' [JStr ''u''],
                 LastInsertId, RowsAffected, Close, Commit])"
    by code_simp
  show ?thesis
    using dec
      envelope_without_table_or_payload_is_plain_data [OF dec,
        of "NewSQLiteWriter ok_store ''static''" "\<lparr>outputChan = [], killChan = [], dbTrace = []\<rparr>"]
    by (simp add: run KillPipelineIfErr_def)
qed

end
